theory Spec2Isabelle
  imports Complex_Main "HOL-Library.Code_Target_Nat"
begin

section \<open>Strings of the source language\<close>

text \<open>
  A TypeScript string is a sequence of UTF-16 code units; \<open>length\<close>, \<open>substring\<close>,
  \<open>trim\<close> and the regular expressions of the service (none has the \<open>u\<close> flag) all work
  on code units. A code unit is modelled by its number; every theorem below that
  quantifies over strings therefore covers every sequence of code units.
\<close>

type_synonym jschar = nat
type_synonym jsstring = "jschar list"

definition js :: "string \<Rightarrow> jsstring" where
  "js s = map of_char s"

text \<open>
  \<open>\s\<close> in a regular expression and \<open>String.prototype.trim\<close> use the same set: the
  WhiteSpace and LineTerminator code points of ECMAScript.
\<close>

definition isWhiteSpace :: "jschar \<Rightarrow> bool" where
  "isWhiteSpace c \<longleftrightarrow>
     c = 9 \<or> c = 10 \<or> c = 11 \<or> c = 12 \<or> c = 13 \<or> c = 32 \<or> c = 160 \<or> c = 5760 \<or>
     (8192 \<le> c \<and> c \<le> 8202) \<or> c = 8232 \<or> c = 8233 \<or> c = 8239 \<or> c = 8287 \<or>
     c = 12288 \<or> c = 65279"

definition isLineTerminator :: "jschar \<Rightarrow> bool" where
  "isLineTerminator c \<longleftrightarrow> c = 10 \<or> c = 13 \<or> c = 8232 \<or> c = 8233"

definition isDigit :: "jschar \<Rightarrow> bool" where
  "isDigit c \<longleftrightarrow> 48 \<le> c \<and> c \<le> 57"

definition trim :: "jsstring \<Rightarrow> jsstring" where
  "trim s = rev (dropWhile isWhiteSpace (rev (dropWhile isWhiteSpace s)))"

text \<open>\<open>s.substring(a, b)\<close> for \<open>0 \<le> a \<le> b\<close>; the end is clamped to the length.\<close>

definition substring :: "jsstring \<Rightarrow> nat \<Rightarrow> nat \<Rightarrow> jsstring" where
  "substring s a b = take (b - a) (drop a s)"

text \<open>\<open>s.lastIndexOf(c)\<close> for a one-character needle: the last index, or \<open>-1\<close>.\<close>

fun lastIndexOf :: "jsstring \<Rightarrow> jschar \<Rightarrow> int" where
  "lastIndexOf [] c = -1"
| "lastIndexOf (x # xs) c =
     (let r = lastIndexOf xs c in
      if r \<ge> 0 then r + 1 else if x = c then 0 else -1)"

text \<open>\<open>s.split('\n')\<close> and \<open>lines.join('\n')\<close>.\<close>

fun splitOn :: "jschar \<Rightarrow> jsstring \<Rightarrow> jsstring list" where
  "splitOn d [] = [[]]"
| "splitOn d (x # xs) =
     (if x = d then [] # splitOn d xs
      else (case splitOn d xs of l # ls \<Rightarrow> (x # l) # ls | [] \<Rightarrow> [[x]]))"

fun joinWith :: "jsstring \<Rightarrow> jsstring list \<Rightarrow> jsstring" where
  "joinWith d [] = []"
| "joinWith d [l] = l"
| "joinWith d (l # ls) = l @ d @ joinWith d ls"


section \<open>The regular expressions the service uses\<close>

text \<open>
  Every pattern of the service is a sequence of single-character atoms, quantified
  atoms (greedy, lazy, or greedy inside the one capture group) and anchors. The
  matcher below is the backtracking matcher of ECMAScript restricted to that shape:
  a greedy quantifier takes the longest run first and gives characters back one at a
  time, a lazy one starts from the shortest.
\<close>

datatype atom =
    Lit jschar
  | OneOf "jschar list"
  | NoneOf "jschar list"
  | Space
  | Digit
  | Dot
  | AnyChar

fun atomMatches :: "atom \<Rightarrow> jschar \<Rightarrow> bool" where
  "atomMatches (Lit d) c = (c = d)"
| "atomMatches (OneOf ds) c = (c \<in> set ds)"
| "atomMatches (NoneOf ds) c = (c \<notin> set ds)"
| "atomMatches Space c = isWhiteSpace c"
| "atomMatches Digit c = isDigit c"
| "atomMatches Dot c = (\<not> isLineTerminator c)"
| "atomMatches AnyChar c = True"

datatype item =
    One atom
  | Rep atom nat "nat option"
  | RepLazy atom nat "nat option"
  | Cap atom nat "nat option"
  | LineStart
  | LineEnd
  | InputStart
  | InputEnd

type_synonym regex = "item list"
type_synonym capture = "(nat \<times> nat) option"

text \<open>The length of the run of characters from \<open>i\<close> that match the atom, at most \<open>hi\<close>.\<close>

definition runLen :: "atom \<Rightarrow> nat option \<Rightarrow> jsstring \<Rightarrow> nat \<Rightarrow> nat" where
  "runLen a hi s i =
     (let n = length (takeWhile (atomMatches a) (drop i s))
      in case hi of None \<Rightarrow> n | Some h \<Rightarrow> min h n)"

fun firstSome :: "'a option list \<Rightarrow> 'a option" where
  "firstSome [] = None"
| "firstSome (None # xs) = firstSome xs"
| "firstSome (Some x # xs) = Some x"

text \<open>
  \<open>rxMatch r s i c\<close>: the match of \<open>r\<close> that starts exactly at index \<open>i\<close> of \<open>s\<close>, as
  its end index and the span of capture group 1.
\<close>

fun rxMatch :: "regex \<Rightarrow> jsstring \<Rightarrow> nat \<Rightarrow> capture \<Rightarrow> (nat \<times> capture) option" where
  "rxMatch [] s i c = Some (i, c)"
| "rxMatch (One a # r) s i c =
     (if i < length s \<and> atomMatches a (s ! i) then rxMatch r s (Suc i) c else None)"
| "rxMatch (Rep a lo hi # r) s i c =
     firstSome (map (\<lambda>k. rxMatch r s (i + k) c) (rev [lo ..< Suc (runLen a hi s i)]))"
| "rxMatch (RepLazy a lo hi # r) s i c =
     firstSome (map (\<lambda>k. rxMatch r s (i + k) c) [lo ..< Suc (runLen a hi s i)])"
| "rxMatch (Cap a lo hi # r) s i c =
     firstSome (map (\<lambda>k. rxMatch r s (i + k) (Some (i, i + k)))
                    (rev [lo ..< Suc (runLen a hi s i)]))"
| "rxMatch (LineStart # r) s i c =
     (if i = 0 \<or> isLineTerminator (s ! (i - 1)) then rxMatch r s i c else None)"
| "rxMatch (LineEnd # r) s i c =
     (if i = length s \<or> isLineTerminator (s ! i) then rxMatch r s i c else None)"
| "rxMatch (InputStart # r) s i c = (if i = 0 then rxMatch r s i c else None)"
| "rxMatch (InputEnd # r) s i c = (if i = length s then rxMatch r s i c else None)"

text \<open>
  The matches a global (\<open>g\<close>) regular expression finds from \<open>lastIndex = 0\<close>, as
  \<open>replace\<close> and a \<open>while (exec)\<close> loop enumerate them: the leftmost match at or after
  \<open>lastIndex\<close>, then \<open>lastIndex\<close> moves to its end. Each is (start, end, capture).
\<close>

fun rxScan :: "regex \<Rightarrow> jsstring \<Rightarrow> nat list \<Rightarrow> nat \<Rightarrow> (nat \<times> nat \<times> capture) list" where
  "rxScan r s [] lastIndex = []"
| "rxScan r s (i # is) lastIndex =
     (if i < lastIndex then rxScan r s is lastIndex
      else (case rxMatch r s i None of
              None \<Rightarrow> rxScan r s is lastIndex
            | Some (e, c) \<Rightarrow> (i, e, c) # rxScan r s is e))"

definition matchAll :: "regex \<Rightarrow> jsstring \<Rightarrow> (nat \<times> nat \<times> capture) list" where
  "matchAll r s = rxScan r s [0 ..< Suc (length s)] 0"

text \<open>
  \<open>regex.test(s)\<close> on a global regular expression whose \<open>lastIndex\<close> is \<open>li\<close>: the search
  starts at \<open>li\<close>; the result is whether a match was found, and the new \<open>lastIndex\<close>
  (the end of the match, or 0).
\<close>

definition rxTestFrom :: "regex \<Rightarrow> jsstring \<Rightarrow> nat \<Rightarrow> bool \<times> nat" where
  "rxTestFrom r s li =
     (case firstSome (map (\<lambda>p. rxMatch r s p None) [li ..< Suc (length s)]) of
        None \<Rightarrow> (False, 0)
      | Some (e, c) \<Rightarrow> (True, e))"

text \<open>\<open>regex.test(s)\<close> on a regular expression without the \<open>g\<close> flag.\<close>

definition rxTest :: "regex \<Rightarrow> jsstring \<Rightarrow> bool" where
  "rxTest r s = fst (rxTestFrom r s 0)"

text \<open>
  \<open>s.replace(regex, f)\<close> with a global regular expression: the text between the
  matches is kept and each match is replaced by \<open>f matched group1\<close>.
\<close>

fun assemble :: "(jsstring \<Rightarrow> jsstring \<Rightarrow> jsstring) \<Rightarrow> jsstring \<Rightarrow> nat \<Rightarrow>
    (nat \<times> nat \<times> capture) list \<Rightarrow> jsstring" where
  "assemble f s pos [] = drop pos s"
| "assemble f s pos ((p, e, c) # ms) =
     substring s pos p
     @ f (substring s p e) (case c of None \<Rightarrow> [] | Some (a, b) \<Rightarrow> substring s a b)
     @ assemble f s e ms"

definition replaceAll :: "regex \<Rightarrow> (jsstring \<Rightarrow> jsstring \<Rightarrow> jsstring) \<Rightarrow> jsstring \<Rightarrow> jsstring" where
  "replaceAll r f s = assemble f s 0 (matchAll r s)"

section \<open>Chunking at safe boundaries\<close>

text \<open>
  \<open>isInsideBrackets(text, position)\<close>: each \<open>(before.match(/\(/g) || []).length\<close> is
  the number of occurrences of that bracket in \<open>before\<close>.
\<close>

definition isInsideBrackets :: "jsstring \<Rightarrow> nat \<Rightarrow> bool" where
  "isInsideBrackets text position =
     (let before = substring text 0 position;
          openParens = count_list before 40;
          closeParens = count_list before 41;
          openBrackets = count_list before 91;
          closeBrackets = count_list before 93;
          openBraces = count_list before 123;
          closeBraces = count_list before 125
      in openParens > closeParens \<or> openBrackets > closeBrackets \<or> openBraces > closeBraces)"

text \<open>The patterns \<open>/\.\s/g\<close>, \<open>/!\s/g\<close>, \<open>/\?\s/g\<close>, \<open>/\n/g\<close> and \<open>/[,;:]\s/g\<close>.\<close>

definition sentencePatterns :: "regex list" where
  "sentencePatterns =
     [[One (Lit 46), One Space], [One (Lit 33), One Space], [One (Lit 63), One Space],
      [One (Lit 10)]]"

definition clausePattern :: regex where
  "clausePattern = [One (OneOf [44, 59, 58]), One Space]"

definition findLastSentenceEnd :: "jsstring \<Rightarrow> int" where
  "findLastSentenceEnd text =
     foldl (\<lambda>lastPos pattern.
              foldl (\<lambda>lastPos (index, e, c).
                       if \<not> isInsideBrackets text index then max lastPos (int index + 1)
                       else lastPos)
                    lastPos (matchAll pattern text))
           (-1) sentencePatterns"

definition findLastClauseEnd :: "jsstring \<Rightarrow> int" where
  "findLastClauseEnd text =
     foldl (\<lambda>lastPos (index, e, c).
              if \<not> isInsideBrackets text index then int index + 1 else lastPos)
           (-1) (matchAll clausePattern text)"

text \<open>
  \<open>findSafeBoundary\<close>: the comparisons \<open>x > maxLen * 0.5\<close> of the source are on
  numbers with \<open>x\<close> and \<open>maxLen\<close> integers, that is \<open>2 * x > maxLen\<close>.
\<close>

definition findSafeBoundary :: "jsstring \<Rightarrow> int" where
  "findSafeBoundary text =
     (let maxLen = int (length text);
          sentenceEnd = findLastSentenceEnd text
      in if 2 * sentenceEnd > maxLen then sentenceEnd
         else let clauseEnd = findLastClauseEnd text
              in if 2 * clauseEnd > maxLen then clauseEnd
                 else let wordEnd = lastIndexOf text 32
                      in if 2 * wordEnd > maxLen then wordEnd else maxLen)"

text \<open>
  The \<open>while\<close> loop of \<open>chunkResponse\<close>. Nothing in the source bounds the number of
  iterations, so the loop is a partial function: \<open>None\<close> is a run that never returns.
\<close>

partial_function (option) chunkLoop :: "jsstring \<Rightarrow> int \<Rightarrow> jsstring list \<Rightarrow> jsstring list option" where
  "chunkLoop remaining maxChunkSize chunks =
     (if length remaining > 0 then
        (if int (length remaining) \<le> maxChunkSize then Some (chunks @ [remaining])
         else
           (let chunk = substring remaining 0 (nat maxChunkSize);
                boundary = nat (findSafeBoundary chunk)
            in chunkLoop (trim (drop boundary remaining)) maxChunkSize
                 (chunks @ [trim (substring chunk 0 boundary)])))
      else Some chunks)"

declare chunkLoop.simps [code]

definition chunkResponse :: "jsstring \<Rightarrow> int \<Rightarrow> jsstring list option" where
  "chunkResponse content maxChunkSize =
     (if int (length content) \<le> maxChunkSize then Some [content]
      else chunkLoop content maxChunkSize [])"

text \<open>
  \<open>interleaves t fs\<close>: the text \<open>t\<close> is the fragments \<open>fs\<close> in order, with a (possibly
  empty) run of whitespace before the first, between consecutive ones and after the
  last.
\<close>

fun interleaves :: "jsstring \<Rightarrow> jsstring list \<Rightarrow> bool" where
  "interleaves t [] = list_all isWhiteSpace t"
| "interleaves t (f # fs) =
     list_ex (\<lambda>k. list_all isWhiteSpace (take k t) \<and> take (length f) (drop k t) = f \<and>
                  interleaves (drop (k + length f) t) fs)
             [0 ..< Suc (length t)]"


section \<open>The sanitization pipeline\<close>

subsection \<open>Code blocks\<close>

text \<open>\<open>/```[\s\S]*?```/g\<close> and \<open>/`([^`]+)`/g\<close>.\<close>

definition fencedCodePattern :: regex where
  "fencedCodePattern =
     [One (Lit 96), One (Lit 96), One (Lit 96), RepLazy AnyChar 0 None,
      One (Lit 96), One (Lit 96), One (Lit 96)]"

definition inlineCodePattern :: regex where
  "inlineCodePattern = [One (Lit 96), Cap (NoneOf [96]) 1 None, One (Lit 96)]"

text \<open>The replacement string \<open>'$1'\<close>, and a replacement string without \<open>$\<close>.\<close>

definition group1 :: "jsstring \<Rightarrow> jsstring \<Rightarrow> jsstring" where
  "group1 matched g = g"

definition replaceWith :: "jsstring \<Rightarrow> jsstring \<Rightarrow> jsstring \<Rightarrow> jsstring" where
  "replaceWith r matched g = r"

text \<open>The callback of the first \<open>replace\<close>: \<open>lines.slice(1, -1).join('\n')\<close>.\<close>

definition fenceContent :: "jsstring \<Rightarrow> jsstring \<Rightarrow> jsstring" where
  "fenceContent matched g =
     (let lines = splitOn 10 matched;
          codeLines = butlast (tl lines)
      in joinWith [10] codeLines)"

definition stripCodeBlocks :: "jsstring \<Rightarrow> jsstring" where
  "stripCodeBlocks content =
     (let result = replaceAll fencedCodePattern fenceContent content;
          result = replaceAll inlineCodePattern group1 result
      in result)"

subsection \<open>Markdown\<close>

text \<open>
  In source order: \<open>/^#{1,6}\s+/gm\<close>, \<open>/\*\*([^*]+)\*\*/g\<close>, \<open>/__([^_]+)__/g\<close>,
  \<open>/\*([^*]+)\*/g\<close>, \<open>/_([^_]+)_/g\<close>, \<open>/~~([^~]+)~~/g\<close>, \<open>/\[([^\]]+)\]\([^)]+\)/g\<close>,
  \<open>/!\[([^\]]*)\]\([^)]+\)/g\<close>, \<open>/^>\s*/gm\<close>, \<open>/^[-*_]{3,}$/gm\<close>,
  \<open>/^[\s]*[-*+]\s+/gm\<close>, \<open>/^[\s]*\d+\.\s+/gm\<close>.
\<close>

definition headerPattern :: regex where
  "headerPattern = [LineStart, Rep (Lit 35) 1 (Some 6), Rep Space 1 None]"

definition boldStarPattern :: regex where
  "boldStarPattern =
     [One (Lit 42), One (Lit 42), Cap (NoneOf [42]) 1 None, One (Lit 42), One (Lit 42)]"

definition boldUnderPattern :: regex where
  "boldUnderPattern =
     [One (Lit 95), One (Lit 95), Cap (NoneOf [95]) 1 None, One (Lit 95), One (Lit 95)]"

definition italicStarPattern :: regex where
  "italicStarPattern = [One (Lit 42), Cap (NoneOf [42]) 1 None, One (Lit 42)]"

definition italicUnderPattern :: regex where
  "italicUnderPattern = [One (Lit 95), Cap (NoneOf [95]) 1 None, One (Lit 95)]"

definition strikePattern :: regex where
  "strikePattern =
     [One (Lit 126), One (Lit 126), Cap (NoneOf [126]) 1 None, One (Lit 126), One (Lit 126)]"

definition linkPattern :: regex where
  "linkPattern =
     [One (Lit 91), Cap (NoneOf [93]) 1 None, One (Lit 93),
      One (Lit 40), Rep (NoneOf [41]) 1 None, One (Lit 41)]"

definition imagePattern :: regex where
  "imagePattern =
     [One (Lit 33), One (Lit 91), Cap (NoneOf [93]) 0 None, One (Lit 93),
      One (Lit 40), Rep (NoneOf [41]) 1 None, One (Lit 41)]"

definition blockquotePattern :: regex where
  "blockquotePattern = [LineStart, One (Lit 62), Rep Space 0 None]"

definition rulePattern :: regex where
  "rulePattern = [LineStart, Rep (OneOf [45, 42, 95]) 3 None, LineEnd]"

definition bulletPattern :: regex where
  "bulletPattern = [LineStart, Rep Space 0 None, One (OneOf [45, 42, 43]), Rep Space 1 None]"

definition orderedPattern :: regex where
  "orderedPattern =
     [LineStart, Rep Space 0 None, Rep Digit 1 None, One (Lit 46), Rep Space 1 None]"

definition stripMarkdown :: "jsstring \<Rightarrow> jsstring" where
  "stripMarkdown content =
     (let result = content;
          result = replaceAll headerPattern (replaceWith []) result;
          result = replaceAll boldStarPattern group1 result;
          result = replaceAll boldUnderPattern group1 result;
          result = replaceAll italicStarPattern group1 result;
          result = replaceAll italicUnderPattern group1 result;
          result = replaceAll strikePattern group1 result;
          result = replaceAll linkPattern group1 result;
          result = replaceAll imagePattern group1 result;
          result = replaceAll blockquotePattern (replaceWith []) result;
          result = replaceAll rulePattern (replaceWith []) result;
          result = replaceAll bulletPattern (replaceWith [8226, 32]) result;
          result = replaceAll orderedPattern (replaceWith []) result
      in result)"

subsection \<open>Math symbols\<close>

text \<open>
  The table \<open>replacements\<close>, in source order. The first three entries are
  \<open>/\<surd>\(([^)]+)\)/g \<rightarrow> 'sqrt($1)'\<close>, \<open>/\<surd>(\d+)/g \<rightarrow> 'sqrt($1)'\<close> and \<open>/\<surd>/g \<rightarrow> 'sqrt'\<close>
  (the square-root sign is code unit 8730); every other entry replaces one code unit,
  given by its number, with a fixed ASCII text.
\<close>

definition sqrtOf :: "jsstring \<Rightarrow> jsstring \<Rightarrow> jsstring" where
  "sqrtOf matched g = js ''sqrt('' @ g @ js '')''"

definition glyph :: "jschar \<Rightarrow> string \<Rightarrow> regex \<times> (jsstring \<Rightarrow> jsstring \<Rightarrow> jsstring)" where
  "glyph c r = ([One (Lit c)], replaceWith (js r))"

definition replacements :: "(regex \<times> (jsstring \<Rightarrow> jsstring \<Rightarrow> jsstring)) list" where
  "replacements =
     [([One (Lit 8730), One (Lit 40), Cap (NoneOf [41]) 1 None, One (Lit 41)], sqrtOf),
      ([One (Lit 8730), Cap Digit 1 None], sqrtOf),
      ([One (Lit 8730)], replaceWith (js ''sqrt'')),
      glyph 8747 ''Integral of '', glyph 8721 ''Sum of '', glyph 931 ''Sum of '',
      glyph 8719 ''Product of '', glyph 928 ''Product of '', glyph 8734 ''infinity'',
      glyph 177 ''+/-'', glyph 215 ''*'', glyph 8901 ''*'', glyph 247 ''/'',
      glyph 8800 ''!='', glyph 8804 ''<='', glyph 8805 ''>='', glyph 8776 ''~='',
      glyph 8733 '' proportional to '', glyph 176 '' degrees'', glyph 960 ''pi'',
      glyph 952 ''theta'', glyph 945 ''alpha'', glyph 946 ''beta'', glyph 947 ''gamma'',
      glyph 948 ''delta'', glyph 916 ''Delta'', glyph 955 ''lambda'', glyph 956 ''mu'',
      glyph 963 ''sigma'', glyph 969 ''omega'', glyph 937 ''Omega'', glyph 8594 ''->'',
      glyph 8592 ''<-'', glyph 8596 ''<->'', glyph 8658 ''=>'', glyph 8656 ''<='',
      glyph 8320 ''_0'', glyph 8321 ''_1'', glyph 8322 ''_2'', glyph 8323 ''_3'',
      glyph 8324 ''_4'', glyph 8325 ''_5'', glyph 8326 ''_6'', glyph 8327 ''_7'',
      glyph 8328 ''_8'', glyph 8329 ''_9'', glyph 8345 ''_n'', glyph 8339 ''_x'',
      glyph 7522 ''_i'', glyph 11388 ''_j'', glyph 8304 ''^0'', glyph 185 ''^1'',
      glyph 178 ''^2'', glyph 179 ''^3'', glyph 8308 ''^4'', glyph 8309 ''^5'',
      glyph 8310 ''^6'', glyph 8311 ''^7'', glyph 8312 ''^8'', glyph 8313 ''^9'',
      glyph 8319 ''^n'', glyph 189 ''1/2'', glyph 8531 ''1/3'', glyph 188 ''1/4'',
      glyph 8533 ''1/5'', glyph 8537 ''1/6'', glyph 8528 ''1/7'', glyph 8539 ''1/8'',
      glyph 8529 ''1/9'', glyph 8530 ''1/10'', glyph 8532 ''2/3'', glyph 190 ''3/4'',
      glyph 8534 ''2/5'', glyph 8535 ''3/5'', glyph 8536 ''4/5'']"

definition convertMathSymbols :: "jsstring \<Rightarrow> jsstring" where
  "convertMathSymbols content =
     foldl (\<lambda>result (pattern, replacement). replaceAll pattern replacement result)
           content replacements"

subsection \<open>Tables\<close>

text \<open>
  \<open>tablePattern = /\|(.+)\|/g\<close> and \<open>separatorPattern = /^\|[-:| ]+\|$/\<close>. The first has
  the \<open>g\<close> flag and is created once per call of \<open>convertTables\<close>, so its \<open>lastIndex\<close> is
  carried from the \<open>test\<close> of one line to the \<open>test\<close> of the next.
\<close>

definition tablePattern :: regex where
  "tablePattern = [One (Lit 124), Cap Dot 1 None, One (Lit 124)]"

definition separatorPattern :: regex where
  "separatorPattern =
     [InputStart, One (Lit 124), Rep (OneOf [45, 58, 124, 32]) 1 None, One (Lit 124), InputEnd]"

definition tableCells :: "jsstring \<Rightarrow> jsstring" where
  "tableCells line =
     joinWith (js '' | '') (map trim (filter (\<lambda>cell. trim cell \<noteq> []) (splitOn 124 line)))"

fun tableLines :: "jsstring list \<Rightarrow> nat \<Rightarrow> jsstring list" where
  "tableLines [] lastIndex = []"
| "tableLines (line # lines) lastIndex =
     (if rxTest separatorPattern (trim line) then tableLines lines lastIndex
      else (case rxTestFrom tablePattern line lastIndex of
              (True, lastIndex') \<Rightarrow> tableCells line # tableLines lines lastIndex'
            | (False, lastIndex') \<Rightarrow> line # tableLines lines lastIndex'))"

definition convertTables :: "jsstring \<Rightarrow> jsstring" where
  "convertTables content =
     (let lines = splitOn 10 content;
          result = tableLines lines 0
      in joinWith [10] result)"

subsection \<open>Whitespace\<close>

text \<open>\<open>/  +/g\<close> and \<open>/\n{3,}/g\<close>.\<close>

definition spacesPattern :: regex where
  "spacesPattern = [One (Lit 32), Rep (Lit 32) 1 None]"

definition newlinesPattern :: regex where
  "newlinesPattern = [Rep (Lit 10) 3 None]"

definition normalizeWhitespace :: "jsstring \<Rightarrow> jsstring" where
  "normalizeWhitespace content =
     (let result = content;
          result = replaceAll spacesPattern (replaceWith [32]) result;
          result = replaceAll newlinesPattern (replaceWith [10, 10]) result;
          result = joinWith [10] (map trim (splitOn 10 result));
          result = trim result
      in result)"

subsection \<open>The pipeline\<close>

definition sanitizeAIResponse :: "jsstring \<Rightarrow> jsstring" where
  "sanitizeAIResponse content =
     (let result = content;
          result = stripCodeBlocks result;
          result = stripMarkdown result;
          result = convertMathSymbols result;
          result = convertTables result;
          result = normalizeWhitespace result
      in result)"


subsection \<open>Plain text\<close>

text \<open>
  A text is plain when the sanitizer finds nothing to rewrite in it: none of the
  markup patterns of \<open>stripCodeBlocks\<close> and \<open>stripMarkdown\<close> matches anywhere, none of the
  patterns of the math table matches, no line is a table row or a table separator, and
  the whitespace is already normal (no run of two spaces, no run of three newlines,
  every line trimmed, the whole text trimmed).
\<close>

definition occurs :: "regex \<Rightarrow> jsstring \<Rightarrow> bool" where
  "occurs r s \<longleftrightarrow> matchAll r s \<noteq> []"

definition markupPatterns :: "regex list" where
  "markupPatterns =
     [fencedCodePattern, inlineCodePattern, headerPattern, boldStarPattern, boldUnderPattern,
      italicStarPattern, italicUnderPattern, strikePattern, linkPattern, imagePattern,
      blockquotePattern, rulePattern, bulletPattern, orderedPattern]"

definition hasTableRow :: "jsstring \<Rightarrow> bool" where
  "hasTableRow s \<longleftrightarrow>
     list_ex (\<lambda>line. rxTest separatorPattern (trim line) \<or> occurs tablePattern line)
             (splitOn 10 s)"

definition normalWhitespace :: "jsstring \<Rightarrow> bool" where
  "normalWhitespace s \<longleftrightarrow>
     \<not> occurs spacesPattern s \<and> \<not> occurs newlinesPattern s \<and>
     list_all (\<lambda>line. trim line = line) (splitOn 10 s) \<and> trim s = s"

definition plainText :: "jsstring \<Rightarrow> bool" where
  "plainText s \<longleftrightarrow>
     list_all (\<lambda>r. \<not> occurs r s) (markupPatterns @ map fst replacements) \<and>
     \<not> hasTableRow s \<and> normalWhitespace s"


text \<open>
  A class of plain texts, given by its characters: one line of ASCII letters, single
  spaces and the punctuation \<open>, . ; : ? ' " ( )\<close>, not starting or ending with a space.
\<close>

definition ordinaryChar :: "jschar \<Rightarrow> bool" where
  "ordinaryChar c \<longleftrightarrow>
     (65 \<le> c \<and> c \<le> 90) \<or> (97 \<le> c \<and> c \<le> 122) \<or>
     c = 32 \<or> c = 44 \<or> c = 46 \<or> c = 59 \<or> c = 58 \<or> c = 63 \<or> c = 39 \<or> c = 34 \<or>
     c = 40 \<or> c = 41"

definition ordinarySentence :: "jsstring \<Rightarrow> bool" where
  "ordinarySentence s \<longleftrightarrow>
     list_all ordinaryChar s \<and>
     list_all (\<lambda>i. \<not> (s ! i = 32 \<and> s ! Suc i = 32)) [0 ..< length s - 1] \<and>
     (s = [] \<or> (hd s \<noteq> 32 \<and> last s \<noteq> 32))"


section \<open>The content policy check\<close>

record PolicyCheck =
  safe :: bool
  reason :: "jsstring option"

text \<open>\<open>checkContentPolicy\<close> is a placeholder in the source: it ignores its argument.\<close>

definition checkContentPolicy :: "jsstring \<Rightarrow> PolicyCheck" where
  "checkContentPolicy content = \<lparr>safe = True, reason = None\<rparr>"


section \<open>The AI service: queries and continuation\<close>

text \<open>
  Identifiers (database ids, device ids, query ids, API keys, model names, error
  messages) are opaque tokens and are written as \<open>string\<close>; the texts that the
  sanitizer and the chunker work on are \<open>jsstring\<close>. Times are milliseconds.
\<close>

datatype AIProvider = OPENAI | ANTHROPIC | GEMINI | DEEPSEEK | PERPLEXITY | GROQ | OPENROUTER

datatype AppError =
    NotFoundError string
  | ValidationError string
  | AppError nat string
  | UniqueConstraintError

record AIQueryResponse =
  chunk :: jsstring
  has_more :: bool
  cursor :: "string option"

text \<open>The rows of the tables the service touches (fields prefixed by the table).\<close>

record AIConfig =
  cfg_provider :: AIProvider
  cfg_model :: string
  cfg_apiKey :: "string option"
  cfg_maxChars :: int
  cfg_temperature :: real

record Device =
  dev_id :: string
  dev_deviceId :: string
  dev_aiConfig :: "AIConfig option"

record AIChunk =
  ch_id :: string
  ch_queryId :: string
  ch_deviceId :: string
  ch_chunks :: "jsstring list"
  ch_cursor :: nat
  ch_expiresAt :: int

record Database =
  devices :: "Device list"
  aIChunk :: "AIChunk list"
  activityLog :: "(string \<times> int) list"

text \<open>The part of \<open>config\<close> the service reads.\<close>

record AIKeys =
  openai :: "string option"
  anthropic :: "string option"
  gemini :: "string option"
  deepseek :: "string option"
  perplexity :: "string option"
  groq :: "string option"
  openrouter :: "string option"

record Limits =
  aiOutputChunkSize :: int
  aiChunkTTL :: int

record Config =
  ai :: AIKeys
  limits :: Limits

text \<open>The limits as \<open>config/env.ts\<close> sets them.\<close>

definition configLimits :: Limits where
  "configLimits = \<lparr>aiOutputChunkSize = 2500, aiChunkTTL = 3600\<rparr>"

record AIProviderConfig =
  pc_provider :: AIProvider
  pc_model :: string
  pc_apiKey :: string
  pc_maxChars :: int
  pc_temperature :: real

text \<open>\<open>x || null\<close> on an optional string: \<open>undefined\<close> and the empty string are falsy.\<close>

text \<open>The provider's name, as the template of an error message prints it.\<close>

fun providerName :: "AIProvider \<Rightarrow> string" where
  "providerName OPENAI = ''OPENAI''"
| "providerName ANTHROPIC = ''ANTHROPIC''"
| "providerName GEMINI = ''GEMINI''"
| "providerName DEEPSEEK = ''DEEPSEEK''"
| "providerName PERPLEXITY = ''PERPLEXITY''"
| "providerName GROQ = ''GROQ''"
| "providerName OPENROUTER = ''OPENROUTER''"

definition orNull :: "string option \<Rightarrow> string option" where
  "orNull x = (case x of None \<Rightarrow> None | Some k \<Rightarrow> if k = [] then None else Some k)"

definition getApiKey :: "Config \<Rightarrow> AIProvider \<Rightarrow> string option \<Rightarrow> string option" where
  "getApiKey config provider deviceApiKey =
     (case orNull deviceApiKey of
        Some k \<Rightarrow> Some k
      | None \<Rightarrow>
          (case provider of
             OPENAI \<Rightarrow> orNull (openai (ai config))
           | ANTHROPIC \<Rightarrow> orNull (anthropic (ai config))
           | GEMINI \<Rightarrow> orNull (gemini (ai config))
           | DEEPSEEK \<Rightarrow> orNull (deepseek (ai config))
           | PERPLEXITY \<Rightarrow> orNull (perplexity (ai config))
           | GROQ \<Rightarrow> orNull (groq (ai config))
           | OPENROUTER \<Rightarrow> orNull (openrouter (ai config))))"

subsection \<open>The database operations used\<close>

definition deviceFindUnique :: "Database \<Rightarrow> string \<Rightarrow> Device option" where
  "deviceFindUnique db i = find (\<lambda>d. dev_id d = i) (devices db)"

definition aIChunkFindUnique :: "Database \<Rightarrow> string \<Rightarrow> AIChunk option" where
  "aIChunkFindUnique db q = find (\<lambda>r. ch_queryId r = q) (aIChunk db)"

definition aIChunkDelete :: "Database \<Rightarrow> string \<Rightarrow> Database" where
  "aIChunkDelete db i = db\<lparr>aIChunk := filter (\<lambda>r. ch_id r \<noteq> i) (aIChunk db)\<rparr>"

definition aIChunkUpdate :: "Database \<Rightarrow> string \<Rightarrow> nat \<Rightarrow> Database" where
  "aIChunkUpdate db i c =
     db\<lparr>aIChunk := map (\<lambda>r. if ch_id r = i then r\<lparr>ch_cursor := c\<rparr> else r) (aIChunk db)\<rparr>"

text \<open>
  \<open>create\<close> fails on a row that breaks the primary key on \<open>id\<close> or the unique index on
  \<open>query_id\<close>.
\<close>

definition aIChunkCreate :: "Database \<Rightarrow> AIChunk \<Rightarrow> AppError + Database" where
  "aIChunkCreate db row =
     (if list_ex (\<lambda>r. ch_id r = ch_id row \<or> ch_queryId r = ch_queryId row) (aIChunk db)
      then Inl UniqueConstraintError
      else Inr (db\<lparr>aIChunk := aIChunk db @ [row]\<rparr>))"

definition activityLogUpsert :: "Database \<Rightarrow> string \<Rightarrow> int \<Rightarrow> Database" where
  "activityLogUpsert db deviceId lastAiQuery =
     db\<lparr>activityLog :=
          (if list_ex (\<lambda>(d, t). d = deviceId) (activityLog db)
           then map (\<lambda>(d, t). if d = deviceId then (d, lastAiQuery) else (d, t)) (activityLog db)
           else activityLog db @ [(deviceId, lastAiQuery)])\<rparr>"

subsection \<open>\<open>processAIQuery\<close>\<close>

text \<open>
  What the function reads from outside is passed in: the configuration, the outcome of
  the provider call (\<open>callAIProvider\<close>, \<open>None\<close> when it throws), the clock \<open>now\<close>, the
  fresh query id from \<open>generateQueryId\<close> and the row id the database assigns. The policy
  screen is a parameter as well, so that the branch it guards can be stated; the
  service itself is \<open>processAIQuery\<close> below, with \<open>checkContentPolicy\<close>. Logging is left
  out. The result is \<open>None\<close> when the call never returns (the chunking loop).
\<close>

definition processAIQueryWith ::
  "(jsstring \<Rightarrow> PolicyCheck) \<Rightarrow> Config \<Rightarrow> (jsstring \<Rightarrow> AIProviderConfig \<Rightarrow> jsstring option) \<Rightarrow>
   int \<Rightarrow> string \<Rightarrow> string \<Rightarrow> Database \<Rightarrow> string \<Rightarrow> jsstring \<Rightarrow>
   ((AppError + AIQueryResponse) \<times> Database) option" where
  "processAIQueryWith screen config callAIProvider now queryId rowId db deviceDbId prompt =
     (case deviceFindUnique db deviceDbId of
        None \<Rightarrow> Some (Inl (NotFoundError ''Device not found''), db)
      | Some device \<Rightarrow>
     (case dev_aiConfig device of
        None \<Rightarrow> Some (Inl (ValidationError ''AI not configured for this device''), db)
      | Some aiConfig \<Rightarrow>
     (case getApiKey config (cfg_provider aiConfig) (cfg_apiKey aiConfig) of
        None \<Rightarrow>
          Some (Inl (ValidationError
                       (''No API key configured for '' @ providerName (cfg_provider aiConfig))),
                db)
      | Some apiKey \<Rightarrow>
     (let providerConfig =
            \<lparr>pc_provider = cfg_provider aiConfig, pc_model = cfg_model aiConfig,
             pc_apiKey = apiKey, pc_maxChars = cfg_maxChars aiConfig,
             pc_temperature = cfg_temperature aiConfig\<rparr>
      in case callAIProvider prompt providerConfig of
        None \<Rightarrow> Some (Inl (AppError 500 ''AI provider error. Please try again.''), db)
      | Some rawResponse \<Rightarrow>
     (let policyCheck = screen rawResponse
      in if \<not> safe policyCheck
         then Some (Inr \<lparr>chunk = js ''Content blocked by policy'', has_more = False,
                         cursor = None\<rparr>, db)
         else
     (let sanitized = sanitizeAIResponse rawResponse
      in case chunkResponse sanitized (aiOutputChunkSize (limits config)) of
        None \<Rightarrow> None
      | Some chunks \<Rightarrow>
     (let db = activityLogUpsert db (dev_id device) now
      in if length chunks = 1
         then Some (Inr \<lparr>chunk = chunks ! 0, has_more = False, cursor = None\<rparr>, db)
         else
           (case aIChunkCreate db
                   \<lparr>ch_id = rowId, ch_queryId = queryId, ch_deviceId = dev_id device,
                    ch_chunks = drop 1 chunks, ch_cursor = 1,
                    ch_expiresAt = now + aiChunkTTL (limits config) * 1000\<rparr> of
              Inl e \<Rightarrow> Some (Inl e, db)
            | Inr db \<Rightarrow>
                Some (Inr \<lparr>chunk = chunks ! 0, has_more = True, cursor = Some queryId\<rparr>,
                      db)))))))))"

definition processAIQuery ::
  "Config \<Rightarrow> (jsstring \<Rightarrow> AIProviderConfig \<Rightarrow> jsstring option) \<Rightarrow>
   int \<Rightarrow> string \<Rightarrow> string \<Rightarrow> Database \<Rightarrow> string \<Rightarrow> jsstring \<Rightarrow>
   ((AppError + AIQueryResponse) \<times> Database) option" where
  "processAIQuery = processAIQueryWith checkContentPolicy"

subsection \<open>\<open>continueAIQuery\<close>\<close>

definition continueAIQuery ::
  "int \<Rightarrow> Database \<Rightarrow> string \<Rightarrow> (AppError + AIQueryResponse) \<times> Database" where
  "continueAIQuery now db cursor' =
     (case aIChunkFindUnique db cursor' of
        None \<Rightarrow> (Inl (NotFoundError ''Query not found or expired''), db)
      | Some chunkRecord \<Rightarrow>
          if ch_expiresAt chunkRecord < now
          then (Inl (NotFoundError ''Query expired''), aIChunkDelete db (ch_id chunkRecord))
          else
            (let chunks = ch_chunks chunkRecord;
                 currentIndex = ch_cursor chunkRecord
             in if currentIndex \<ge> length chunks
                then (Inr \<lparr>chunk = [], has_more = False, cursor = None\<rparr>,
                      aIChunkDelete db (ch_id chunkRecord))
                else
                  (let currentChunk = chunks ! currentIndex;
                       hasMore = currentIndex + 1 < length chunks
                   in (Inr \<lparr>chunk = currentChunk, has_more = hasMore,
                            cursor = (if hasMore then Some cursor' else None)\<rparr>,
                       if hasMore then aIChunkUpdate db (ch_id chunkRecord) (currentIndex + 1)
                       else aIChunkDelete db (ch_id chunkRecord)))))"


subsection \<open>A small deployment, for concrete runs\<close>

text \<open>
  One device with an OpenAI configuration and a key in the environment; the
  fragment size is set to 12 so that a short answer already needs several fragments.
\<close>

definition exampleConfig :: Config where
  "exampleConfig =
     \<lparr>ai = \<lparr>openai = Some ''sk-test'', anthropic = None, gemini = None, deepseek = None,
            perplexity = None, groq = None, openrouter = None\<rparr>,
      limits = \<lparr>aiOutputChunkSize = 12, aiChunkTTL = 3600\<rparr>\<rparr>"

definition exampleDb :: Database where
  "exampleDb =
     \<lparr>devices =
        [\<lparr>dev_id = ''d1'', dev_deviceId = ''calx_TEST01'',
          dev_aiConfig =
            Some \<lparr>cfg_provider = OPENAI, cfg_model = ''gpt'', cfg_apiKey = None,
                  cfg_maxChars = 4000, cfg_temperature = 0\<rparr>\<rparr>],
      aIChunk = [], activityLog = []\<rparr>"

text \<open>A provider that answers every prompt with the same three-sentence text.\<close>

definition exampleProvider :: "jsstring \<Rightarrow> AIProviderConfig \<Rightarrow> jsstring option" where
  "exampleProvider prompt providerConfig = Some (js ''First one. Second one. Third'')"

text \<open>The session \<open>processAIQuery\<close> stores for that answer, and the database holding it.\<close>

definition exampleSession :: AIChunk where
  "exampleSession =
     \<lparr>ch_id = ''r1'', ch_queryId = ''q1'', ch_deviceId = ''d1'',
      ch_chunks = [js ''Second one.'', js ''Third''], ch_cursor = 1,
      ch_expiresAt = 3601000\<rparr>"

definition exampleDb1 :: Database where
  "exampleDb1 = exampleDb\<lparr>aIChunk := [exampleSession], activityLog := [(''d1'', 1000)]\<rparr>"

definition exampleDb2 :: Database where
  "exampleDb2 = exampleDb\<lparr>aIChunk := [], activityLog := [(''d1'', 1000)]\<rparr>"


text \<open>A policy screen that flags every text.\<close>

definition exampleScreen :: "jsstring \<Rightarrow> PolicyCheck" where
  "exampleScreen content = \<lparr>safe = False, reason = Some (js ''flagged'')\<rparr>"





section \<open>Trimming and interleaving\<close>

lemma trim_decomp:
  "\<exists>a b. s = a @ trim s @ b \<and> list_all isWhiteSpace a \<and> list_all isWhiteSpace b"
proof -
  let ?a = "takeWhile isWhiteSpace s"
  let ?m = "dropWhile isWhiteSpace s"
  let ?b = "rev (takeWhile isWhiteSpace (rev ?m))"
  have 1: "s = ?a @ ?m" by simp
  have 2: "?m = trim s @ ?b"
    unfolding trim_def by (metis rev_append rev_rev_ident takeWhile_dropWhile_id)
  have 3: "list_all isWhiteSpace ?a" by (simp add: list_all_iff) (meson set_takeWhileD)
  have 4: "list_all isWhiteSpace ?b" by (simp add: list_all_iff) (meson set_takeWhileD)
  from 1 2 have "s = ?a @ trim s @ ?b" by simp
  with 3 4 show ?thesis by blast
qed

lemma length_trim_le: "length (trim s) \<le> length s"
proof -
  obtain a b where "s = a @ trim s @ b" using trim_decomp by blast
  then have "length s = length a + length (trim s) + length b" by (metis length_append add.assoc)
  then show ?thesis by simp
qed

lemma interleaves_Cons_iff:
  "interleaves t (f # fs) \<longleftrightarrow>
     (\<exists>k\<le>length t. list_all isWhiteSpace (take k t) \<and> take (length f) (drop k t) = f \<and>
        interleaves (drop (k + length f) t) fs)"
  unfolding interleaves.simps list_ex_iff set_upt by (auto simp: less_Suc_eq_le)

lemma interleaves_prepend:
  assumes a: "list_all isWhiteSpace a" and t: "interleaves t fs"
  shows "interleaves (a @ t) fs"
proof (cases fs)
  case Nil
  with a t show ?thesis by simp
next
  case (Cons f fs')
  from t have "interleaves t (f # fs')" by (simp only: Cons)
  then obtain k where k: "k \<le> length t" "list_all isWhiteSpace (take k t)"
      "take (length f) (drop k t) = f" "interleaves (drop (k + length f) t) fs'"
    by (auto simp only: interleaves_Cons_iff)
  let ?k = "length a + k"
  have 1: "?k \<le> length (a @ t)" using k by simp
  have 2: "list_all isWhiteSpace (take ?k (a @ t))" using a k by simp
  have 3: "take (length f) (drop ?k (a @ t)) = f" using k by simp
  have 4: "interleaves (drop (?k + length f) (a @ t)) fs'" using k by (simp add: add.assoc)
  have "interleaves (a @ t) (f # fs')"
    by (subst interleaves_Cons_iff) (rule exI[of _ ?k], intro conjI 1 2 3 4)
  then show ?thesis by (simp only: Cons)
qed

lemma interleaves_append:
  "interleaves t fs \<Longrightarrow> list_all isWhiteSpace b \<Longrightarrow> interleaves (t @ b) fs"
proof (induction fs arbitrary: t)
  case Nil
  then show ?case by simp
next
  case (Cons f fs)
  from Cons.prems(1) obtain k where k: "k \<le> length t" "list_all isWhiteSpace (take k t)"
      "take (length f) (drop k t) = f" "interleaves (drop (k + length f) t) fs"
    by (auto simp only: interleaves_Cons_iff)
  have "length (take (length f) (drop k t)) = length f" by (simp only: k(3))
  then have kf: "k + length f \<le> length t" using k(1) by simp
  have 1: "k \<le> length (t @ b)" using k by simp
  have 2: "list_all isWhiteSpace (take k (t @ b))" using k by simp
  have 3: "take (length f) (drop k (t @ b)) = f" using k kf by simp
  have 4: "interleaves (drop (k + length f) (t @ b)) fs"
    using Cons.IH[OF k(4) Cons.prems(2)] kf by simp
  show ?case
    by (subst interleaves_Cons_iff) (rule exI[of _ k], intro conjI 1 2 3 4)
qed

lemma interleaves_cut:
  assumes "list_all isWhiteSpace a" "interleaves r fs"
  shows "interleaves (a @ f @ r) (f # fs)"
  by (subst interleaves_Cons_iff) (rule exI[of _ "length a"], use assms in simp)

section \<open>Facts about the matcher and the boundary search\<close>

lemma rxScan_mem:
  "(p, e, c) \<in> set (rxScan r s ps li) \<Longrightarrow> p \<in> set ps \<and> rxMatch r s p None = Some (e, c)"
proof (induction ps arbitrary: li)
  case Nil
  then show ?case by simp
next
  case (Cons i ps)
  then show ?case
    by (auto split: if_splits option.splits)
qed

lemma matchAll_mem:
  "(p, e, c) \<in> set (matchAll r s) \<Longrightarrow> p \<le> length s \<and> rxMatch r s p None = Some (e, c)"
  unfolding matchAll_def using rxScan_mem[of p e c r s "[0 ..< Suc (length s)]" 0]
  by (simp del: upt_Suc) 

lemma rxMatch_One_first:
  "rxMatch (One a # r) s p c = Some x \<Longrightarrow> p < length s \<and> atomMatches a (s ! p)"
  by (simp split: if_splits)

lemma foldl_invariant:
  assumes "P a" and "\<And>a x. x \<in> set xs \<Longrightarrow> P a \<Longrightarrow> P (f a x)"
  shows "P (foldl f a xs)"
  using assms by (induction xs arbitrary: a) auto

text \<open>A boundary found by the sentence or clause search: none, or just after a terminator
  that is not inside brackets.\<close>

definition goodEnd :: "jsstring \<Rightarrow> int \<Rightarrow> bool" where
  "goodEnd text r \<longleftrightarrow>
     r = -1 \<or> (\<exists>index < length text. r = int index + 1 \<and> \<not> isInsideBrackets text index \<and>
                 text ! index \<in> {46, 33, 63, 10, 44, 59, 58})"

lemma findLastSentenceEnd_good: "goodEnd text (findLastSentenceEnd text)"
  unfolding findLastSentenceEnd_def
proof (rule foldl_invariant)
  show "goodEnd text (- 1)" by (simp add: goodEnd_def)
next
  fix a :: int and pattern
  assume pat: "pattern \<in> set sentencePatterns" and a: "goodEnd text a"
  show "goodEnd text (foldl (\<lambda>lastPos (index, e, c).
          if \<not> isInsideBrackets text index then max lastPos (int index + 1) else lastPos)
        a (matchAll pattern text))"
  proof (rule foldl_invariant)
    show "goodEnd text a" by (rule a)
  next
    fix b :: int and x
    assume x: "x \<in> set (matchAll pattern text)" and b: "goodEnd text b"
    obtain p e c where xe: "x = (p, e, c)" by (cases x) auto
    from x xe have m: "rxMatch pattern text p None = Some (e, c)" using matchAll_mem by blast
    obtain a0 r0 where pattern: "pattern = One a0 # r0" "\<And>ch. atomMatches a0 ch \<Longrightarrow> ch \<in> {46, 33, 63, 10}"
      using pat by (auto simp: sentencePatterns_def)
    from m pattern have pl: "p < length text" "text ! p \<in> {46, 33, 63, 10}"
      using rxMatch_One_first by blast+
    show "goodEnd text (case x of (index, e, c) \<Rightarrow>
           if \<not> isInsideBrackets text index then max b (int index + 1) else b)"
    proof (cases "isInsideBrackets text p")
      case True
      then show ?thesis using b xe by simp
    next
      case False
      have "goodEnd text (int p + 1)" using pl False unfolding goodEnd_def by blast
      then show ?thesis using b xe False by (simp add: max_def)
    qed
  qed
qed

lemma findLastClauseEnd_good: "goodEnd text (findLastClauseEnd text)"
  unfolding findLastClauseEnd_def
proof (rule foldl_invariant)
  show "goodEnd text (- 1)" by (simp add: goodEnd_def)
next
  fix b :: int and x
  assume x: "x \<in> set (matchAll clausePattern text)" and b: "goodEnd text b"
  obtain p e c where xe: "x = (p, e, c)" by (cases x) auto
  from x xe have m: "rxMatch clausePattern text p None = Some (e, c)" using matchAll_mem by blast
  then have "p < length text \<and> atomMatches (OneOf [44, 59, 58]) (text ! p)"
    unfolding clausePattern_def by (rule rxMatch_One_first)
  then have pl: "p < length text" "text ! p \<in> {44, 59, 58}" by simp_all
  show "goodEnd text (case x of (index, e, c) \<Rightarrow>
         if \<not> isInsideBrackets text index then int index + 1 else b)"
  proof (cases "isInsideBrackets text p")
    case True
    then show ?thesis using b xe by simp
  next
    case False
    have "goodEnd text (int p + 1)" using pl False unfolding goodEnd_def by blast
    then show ?thesis using xe False by simp
  qed
qed

lemma lastIndexOf_bounds: "- 1 \<le> lastIndexOf s c \<and> lastIndexOf s c < int (length s)"
  by (induction s) (auto simp: Let_def)

lemma goodEnd_bounds: "goodEnd text r \<Longrightarrow> - 1 \<le> r \<and> r \<le> int (length text)"
  unfolding goodEnd_def by auto

lemma findSafeBoundary_le: "findSafeBoundary text \<le> int (length text)"
  using goodEnd_bounds[OF findLastSentenceEnd_good, of "text"]
        goodEnd_bounds[OF findLastClauseEnd_good, of "text"] lastIndexOf_bounds[of "text" 32]
  by (simp add: findSafeBoundary_def Let_def)

lemma findSafeBoundary_pos: "text \<noteq> [] \<Longrightarrow> 0 < findSafeBoundary text"
  by (simp add: findSafeBoundary_def Let_def)

section \<open>The chunking loop returns, within bounds\<close>

lemma chunkLoop_total:
  assumes m: "0 < maxSize"
  shows "\<exists>ys. chunkLoop remaining maxSize acc = Some (acc @ ys) \<and>
           (\<forall>y\<in>set ys. int (length y) \<le> maxSize) \<and> interleaves remaining ys \<and>
           (remaining \<noteq> [] \<longrightarrow> ys \<noteq> [])"
proof (induction "length remaining" arbitrary: remaining acc rule: less_induct)
  case less
  show ?case
  proof (cases "remaining = []")
    case True
    then show ?thesis by (subst chunkLoop.simps) simp
  next
    case False
    show ?thesis
    proof (cases "int (length remaining) \<le> maxSize")
      case True
      have "interleaves remaining [remaining]"
        using interleaves_cut[of "[]" "[]" "[]" remaining] by simp
      with True False show ?thesis by (subst chunkLoop.simps) simp
    next
      case long: False
      define chunk where "chunk = substring remaining 0 (nat maxSize)"
      define boundary where "boundary = nat (findSafeBoundary chunk)"
      define frag where "frag = trim (substring chunk 0 boundary)"
      define rest where "rest = trim (drop boundary remaining)"
      have clen: "length chunk = nat maxSize"
        using long m by (simp add: chunk_def substring_def)
      then have cne: "chunk \<noteq> []" using m by auto
      have bpos: "0 < boundary"
        using findSafeBoundary_pos[OF cne] by (simp add: boundary_def)
      have ble: "boundary \<le> nat maxSize"
        using findSafeBoundary_le[of chunk] clen m unfolding boundary_def by linarith
      have pre: "substring chunk 0 boundary = take boundary remaining"
        using ble by (simp add: chunk_def substring_def min_def)
      have "length frag \<le> length (take boundary remaining)"
        unfolding frag_def pre by (rule length_trim_le)
      then have "length frag \<le> boundary" by simp
      then have flen: "int (length frag) \<le> maxSize" using ble m by linarith
      have "length rest \<le> length (drop boundary remaining)"
        unfolding rest_def by (rule length_trim_le)
      then have "length rest \<le> length remaining - boundary" by simp
      moreover have "0 < length remaining" using False by simp
      ultimately have rlen: "length rest < length remaining" using bpos by linarith
      from less[OF rlen, of "acc @ [frag]"] obtain ys where
        ys: "chunkLoop rest maxSize (acc @ [frag]) = Some ((acc @ [frag]) @ ys)"
            "\<forall>y\<in>set ys. int (length y) \<le> maxSize" "interleaves rest ys"
        by blast
      obtain a1 a2 where f: "take boundary remaining = a1 @ frag @ a2"
          "list_all isWhiteSpace a1" "list_all isWhiteSpace a2"
        using trim_decomp[of "take boundary remaining"] unfolding frag_def pre by blast
      obtain a3 a4 where r: "drop boundary remaining = a3 @ rest @ a4"
          "list_all isWhiteSpace a3" "list_all isWhiteSpace a4"
        using trim_decomp[of "drop boundary remaining"] unfolding rest_def by blast
      have "remaining = take boundary remaining @ drop boundary remaining" by simp
      then have split: "remaining = a1 @ frag @ ((a2 @ a3) @ rest @ a4)"
        by (simp only: f r append_assoc)
      have "interleaves (rest @ a4) ys" using ys(3) r(3) by (rule interleaves_append)
      moreover have "list_all isWhiteSpace (a2 @ a3)" using f(3) r(2) by simp
      ultimately have "interleaves ((a2 @ a3) @ (rest @ a4)) ys"
        by (rule interleaves_prepend[rotated])
      then have "interleaves (a1 @ frag @ ((a2 @ a3) @ rest @ a4)) (frag # ys)"
        using f(2) by (intro interleaves_cut) simp_all
      then have il: "interleaves remaining (frag # ys)" by (simp only: split[symmetric])
      have step: "chunkLoop remaining maxSize acc = chunkLoop rest maxSize (acc @ [frag])"
        using False long
        by (subst chunkLoop.simps) (simp add: chunk_def boundary_def frag_def rest_def Let_def)
      show ?thesis
        using step ys(1) ys(2) flen il by (intro exI[of _ "frag # ys"]) simp
    qed
  qed
qed

lemma count_take_Suc_other:
  "index < length w \<Longrightarrow> w ! index \<noteq> b \<Longrightarrow>
   count_list (take (Suc index) w) b = count_list (take index w) b"
  by (simp add: take_Suc_conv_app_nth)

lemma goodEnd_outside:
  assumes "goodEnd w r" "r \<noteq> - 1"
  shows "\<not> isInsideBrackets w (nat r)"
proof -
  from assms obtain index where i: "index < length w" "r = int index + 1"
      "\<not> isInsideBrackets w index" "w ! index \<in> {46, 33, 63, 10, 44, 59, 58}"
    unfolding goodEnd_def by blast
  have n: "nat r = Suc index" using i(2) by simp
  have nb: "w ! index \<noteq> 40" "w ! index \<noteq> 41" "w ! index \<noteq> 91" "w ! index \<noteq> 93"
      "w ! index \<noteq> 123" "w ! index \<noteq> 125"
    using i(4) by auto
  show ?thesis
    using i(3) unfolding n isInsideBrackets_def substring_def Let_def
    by (simp add: count_take_Suc_other[OF i(1)] nb del: count_list.simps)
qed

section \<open>The query returns\<close>

text \<open>
  With a positive fragment size the chunker returns at least one fragment, and so
  \<open>processAIQuery\<close> returns: its results below are never about a call that hangs. The
  limits of \<open>config/env.ts\<close> are positive.
\<close>

lemma chunkResponse_returns:
  assumes "0 < maxSize"
  shows "\<exists>frags. chunkResponse text maxSize = Some frags \<and> frags \<noteq> []"
proof (cases "int (length text) \<le> maxSize")
  case True
  then show ?thesis by (simp add: chunkResponse_def)
next
  case False
  with assms have "text \<noteq> []" by auto
  with chunkLoop_total[OF assms, of "text" "[]"] False show ?thesis
    by (auto simp: chunkResponse_def)
qed

lemma processAIQueryWith_returns:
  assumes "0 < aiOutputChunkSize (limits config)"
  shows "\<exists>r. processAIQueryWith screen config callAIProvider now queryId rowId db deviceDbId
               prompt = Some r"
proof -
  have r: "(chunkResponse t (aiOutputChunkSize (limits config)) = None) = False" for t
    using chunkResponse_returns[OF assms, of t] by auto
  show ?thesis
    unfolding processAIQueryWith_def Let_def
    by (auto simp: r split: option.splits sum.splits)
qed

lemma configLimits_positive: "0 < aiOutputChunkSize configLimits \<and> 0 < aiChunkTTL configLimits"
  by (simp add: configLimits_def)


section \<open>Claims about \<open>chunkResponse\<close>\<close>

text \<open>
  C8. For every text and every \<open>maxSize > 0\<close> with \<open>length text \<le> maxSize\<close>,
  \<open>chunkResponse text maxSize\<close> returns the one-element sequence whose only element is
  the text, unchanged.
\<close>

theorem C8_short_text_single_fragment:
  "0 < maxSize \<Longrightarrow> int (length text) \<le> maxSize \<Longrightarrow> chunkResponse text maxSize = Some [text]"
  by (simp add: chunkResponse_def)

theorem C8_witness:
  "(0::int) < 20 \<and> int (length (js ''Short content.'')) \<le> 20 \<and>
   chunkResponse (js ''Short content.'') 20 = Some [js ''Short content.'']"
  using C8_short_text_single_fragment[of 20 "js ''Short content.''"] by (simp add: js_def)

text \<open>
  C4. For every text and every \<open>maxSize > 0\<close>, \<open>chunkResponse text maxSize\<close> returns, and
  every fragment of the sequence it returns has length at most \<open>maxSize\<close>.
\<close>

theorem C4_fragments_within_maxSize:
  "0 < maxSize \<Longrightarrow>
   \<exists>frags. chunkResponse text maxSize = Some frags \<and> (\<forall>f\<in>set frags. int (length f) \<le> maxSize)"
proof -
  assume m: "0 < maxSize"
  show ?thesis
  proof (cases "int (length text) \<le> maxSize")
    case True
    then show ?thesis by (simp add: chunkResponse_def)
  next
    case False
    from chunkLoop_total[OF m, of "text" "[]"] False show ?thesis
      by (auto simp: chunkResponse_def)
  qed
qed

theorem C4_witness:
  "(0::int) < 20 \<and>
   chunkResponse (js ''Hello world. This is (a test, of) things; and more. Yes indeed no'') 20
     = Some [js ''Hello world.'', js ''This is (a test,'', js ''of) things;'',
             js ''and more. Yes'', js ''indeed no''] \<and>
   (\<exists>frags. chunkResponse (js ''Hello world. This is (a test, of) things; and more. Yes indeed no'') 20
               = Some frags \<and> (\<forall>f\<in>set frags. int (length f) \<le> 20))"
proof -
  have 1: "(0::int) < 20" by simp
  have 2: "chunkResponse (js ''Hello world. This is (a test, of) things; and more. Yes indeed no'') 20
     = Some [js ''Hello world.'', js ''This is (a test,'', js ''of) things;'',
             js ''and more. Yes'', js ''indeed no'']"
    by code_simp
  show ?thesis using 1 2 C4_fragments_within_maxSize[OF 1] by blast
qed

text \<open>
  C5. For every text and every \<open>maxSize > 0\<close>, \<open>chunkResponse text maxSize\<close> returns, and
  the text is the fragments in order, interleaved with (possibly empty) runs of
  whitespace: joining the fragments gives the input back up to the whitespace trimmed
  at the fragment boundaries.
\<close>

theorem C5_fragments_reconstruct_text:
  "0 < maxSize \<Longrightarrow>
   \<exists>frags. chunkResponse text maxSize = Some frags \<and> interleaves text frags"
proof -
  assume m: "0 < maxSize"
  show ?thesis
  proof (cases "int (length text) \<le> maxSize")
    case True
    have "interleaves text [text]"
      using interleaves_cut[of "[]" "[]" "[]" "text"] by simp
    with True show ?thesis by (simp add: chunkResponse_def)
  next
    case False
    from chunkLoop_total[OF m, of "text" "[]"] False show ?thesis
      by (auto simp: chunkResponse_def)
  qed
qed

theorem C5_witness:
  "(0::int) < 12 \<and>
   chunkResponse (js ''First one.   Second one here'') 12
     = Some [js ''First one.'', js ''Second one'', js ''here''] \<and>
   (\<exists>frags. chunkResponse (js ''First one.   Second one here'') 12 = Some frags \<and>
            interleaves (js ''First one.   Second one here'') frags)"
proof -
  have 1: "(0::int) < 12" by simp
  have 2: "chunkResponse (js ''First one.   Second one here'') 12
     = Some [js ''First one.'', js ''Second one'', js ''here'']"
    by code_simp
  show ?thesis using 1 2 C5_fragments_reconstruct_text[OF 1] by blast
qed

text \<open>
  The sentence-end rule and the clause-end rule (priorities 1 and 2 of
  \<open>findSafeBoundary\<close>) skip every terminator that \<open>isInsideBrackets\<close> rejects: a cut
  chosen by either of them has, in the window before the cut, at least as many closing
  as opening brackets of each kind.
\<close>

lemma sentence_and_clause_cuts_outside_brackets:
  assumes "2 * findLastSentenceEnd w > int (length w) \<or> 2 * findLastClauseEnd w > int (length w)"
  shows "\<not> isInsideBrackets w (nat (findSafeBoundary w))"
proof (cases "2 * findLastSentenceEnd w > int (length w)")
  case True
  then have "findLastSentenceEnd w \<noteq> - 1" by auto
  from goodEnd_outside[OF findLastSentenceEnd_good this] True show ?thesis
    by (simp add: findSafeBoundary_def)
next
  case False
  with assms have c: "2 * findLastClauseEnd w > int (length w)" by simp
  then have "findLastClauseEnd w \<noteq> - 1" by auto
  from goodEnd_outside[OF findLastClauseEnd_good this] False c show ?thesis
    by (simp add: findSafeBoundary_def)
qed

text \<open>
  C2 does not hold of the code: the space rule (priority 3 of \<open>findSafeBoundary\<close>) takes
  \<open>lastIndexOf(' ')\<close> without the bracket test that the two rules before it apply. The
  text \<open>aaaa bbbbb ccc (dd ee) ff\<close> is balanced. With \<open>maxSize = 21\<close> the window is
  \<open>aaaa bbbbb ccc (dd ee\<close>; it has no sentence or clause end, its last space is at
  index 18, past the midpoint, and the cut falls after \<open>(dd\<close>, with one opening and no
  closing parenthesis before it, although the space at index 14 is past the midpoint
  too and outside the brackets.
\<close>

theorem C2_space_rule_cuts_inside_brackets:
  "count_list (js ''aaaa bbbbb ccc (dd ee) ff'') 40 = count_list (js ''aaaa bbbbb ccc (dd ee) ff'') 41 \<and>
   count_list (js ''aaaa bbbbb ccc (dd ee) ff'') 91 = count_list (js ''aaaa bbbbb ccc (dd ee) ff'') 93 \<and>
   count_list (js ''aaaa bbbbb ccc (dd ee) ff'') 123 = count_list (js ''aaaa bbbbb ccc (dd ee) ff'') 125 \<and>
   substring (js ''aaaa bbbbb ccc (dd ee) ff'') 0 21 = js ''aaaa bbbbb ccc (dd ee'' \<and>
   findLastSentenceEnd (js ''aaaa bbbbb ccc (dd ee'') = - 1 \<and>
   findLastClauseEnd (js ''aaaa bbbbb ccc (dd ee'') = - 1 \<and>
   lastIndexOf (js ''aaaa bbbbb ccc (dd ee'') 32 = 18 \<and>
   findSafeBoundary (js ''aaaa bbbbb ccc (dd ee'') = 18 \<and>
   isInsideBrackets (js ''aaaa bbbbb ccc (dd ee'') 18 \<and>
   count_list (substring (js ''aaaa bbbbb ccc (dd ee) ff'') 0 18) 40 = 1 \<and>
   count_list (substring (js ''aaaa bbbbb ccc (dd ee) ff'') 0 18) 41 = 0 \<and>
   js ''aaaa bbbbb ccc (dd ee'' ! 14 = 32 \<and>
   2 * (14::int) > int (length (js ''aaaa bbbbb ccc (dd ee'')) \<and>
   \<not> isInsideBrackets (js ''aaaa bbbbb ccc (dd ee'') 14 \<and>
   chunkResponse (js ''aaaa bbbbb ccc (dd ee) ff'') 21
     = Some [js ''aaaa bbbbb ccc (dd'', js ''ee) ff'']"
  by code_simp

section \<open>Claims about the continuation protocol\<close>

lemma find_None_after_delete:
  assumes d: "distinct (map ch_queryId rows)" and f: "find (\<lambda>r. ch_queryId r = q) rows = Some rec"
  shows "find (\<lambda>r. ch_queryId r = q) (filter (\<lambda>r. ch_id r \<noteq> ch_id rec) rows) = None"
proof -
  from f have rec: "rec \<in> set rows" "ch_queryId rec = q"
    by (auto simp: find_Some_iff)
  from d have inj: "inj_on ch_queryId (set rows)" by (simp add: distinct_map)
  have "\<And>x. x \<in> set rows \<Longrightarrow> ch_queryId x = q \<Longrightarrow> x = rec"
    using inj rec by (simp add: inj_on_def)
  then show ?thesis by (auto simp: find_None_iff)
qed

lemma continue_done_deletes:
  assumes "continueAIQuery now db c = (Inr resp, db')" "\<not> has_more resp"
  shows "\<exists>rec. aIChunkFindUnique db c = Some rec \<and> db' = aIChunkDelete db (ch_id rec)"
  using assms
  by (auto simp: continueAIQuery_def Let_def split: option.splits if_splits)

text \<open>
  C3. \<open>continueAIQuery\<close> fails with NotFound exactly when the cursor matches no stored
  session or the matched session's \<open>expiresAt\<close> lies in the past, and it raises no
  other error. In particular (the table has a unique index on the query id) once a
  call has served the last fragment, \<open>has_more = false\<close>, the session is gone and
  every later call on the same cursor yields NotFound.
\<close>

theorem C3_continue_not_found:
  "((\<exists>msg db'. continueAIQuery now db c = (Inl (NotFoundError msg), db')) \<longleftrightarrow>
      (aIChunkFindUnique db c = None \<or>
       (\<exists>rec. aIChunkFindUnique db c = Some rec \<and> ch_expiresAt rec < now))) \<and>
   (\<forall>e. fst (continueAIQuery now db c) = Inl e \<longrightarrow> (\<exists>msg. e = NotFoundError msg)) \<and>
   (distinct (map ch_queryId (aIChunk db)) \<longrightarrow>
      continueAIQuery now db c = (Inr resp, db1) \<longrightarrow> \<not> has_more resp \<longrightarrow>
      aIChunkFindUnique db1 c = None \<and>
      (\<exists>msg db2. continueAIQuery later db1 c = (Inl (NotFoundError msg), db2)))"
proof (intro conjI allI impI)
  show "(\<exists>msg db'. continueAIQuery now db c = (Inl (NotFoundError msg), db')) \<longleftrightarrow>
      (aIChunkFindUnique db c = None \<or>
       (\<exists>rec. aIChunkFindUnique db c = Some rec \<and> ch_expiresAt rec < now))"
    by (auto simp: continueAIQuery_def Let_def split: option.splits if_splits)
next
  fix e assume "fst (continueAIQuery now db c) = Inl e"
  then show "\<exists>msg. e = NotFoundError msg"
    by (auto simp: continueAIQuery_def Let_def split: option.splits if_splits)
next
  assume d: "distinct (map ch_queryId (aIChunk db))"
    and r: "continueAIQuery now db c = (Inr resp, db1)" and h: "\<not> has_more resp"
  from continue_done_deletes[OF r h] obtain rec where
    rec: "aIChunkFindUnique db c = Some rec" "db1 = aIChunkDelete db (ch_id rec)" by blast
  from find_None_after_delete[OF d rec(1)[unfolded aIChunkFindUnique_def]]
  show n: "aIChunkFindUnique db1 c = None"
    by (simp add: rec(2) aIChunkFindUnique_def aIChunkDelete_def)
  show "\<exists>msg db2. continueAIQuery later db1 c = (Inl (NotFoundError msg), db2)"
    by (simp add: continueAIQuery_def n)
qed

lemma example_continue_1:
  "continueAIQuery 2000 exampleDb1 ''q1'' =
     (Inr \<lparr>chunk = js ''Third'', has_more = False, cursor = None\<rparr>, exampleDb2)"
  by code_simp

lemma example_continue_2:
  "continueAIQuery 3000 exampleDb2 ''q1'' =
     (Inl (NotFoundError ''Query not found or expired''), exampleDb2)"
  by code_simp

lemma example_continue_expired:
  "continueAIQuery 3601001 exampleDb1 ''q1'' = (Inl (NotFoundError ''Query expired''), exampleDb2)"
  by code_simp

lemma example_process:
  "processAIQuery exampleConfig exampleProvider 1000 ''q1'' ''r1'' exampleDb ''d1'' (js ''hi'') =
     Some (Inr \<lparr>chunk = js ''First one.'', has_more = True, cursor = Some ''q1''\<rparr>, exampleDb1)"
  by code_simp

theorem C3_witness:
  "distinct (map ch_queryId (aIChunk exampleDb1)) \<and>
   continueAIQuery 2000 exampleDb1 ''q1'' =
     (Inr \<lparr>chunk = js ''Third'', has_more = False, cursor = None\<rparr>, exampleDb2) \<and>
   \<not> has_more \<lparr>chunk = js ''Third'', has_more = False, cursor = None\<rparr> \<and>
   aIChunkFindUnique exampleDb2 ''q1'' = None \<and>
   (\<exists>msg db2. continueAIQuery 3000 exampleDb2 ''q1'' = (Inl (NotFoundError msg), db2)) \<and>
   (\<exists>rec. aIChunkFindUnique exampleDb1 ''q1'' = Some rec \<and> ch_expiresAt rec < 3601001) \<and>
   (\<exists>msg db'. continueAIQuery 3601001 exampleDb1 ''q1'' = (Inl (NotFoundError msg), db'))"
proof -
  have d: "distinct (map ch_queryId (aIChunk exampleDb1))" by code_simp
  have h: "\<not> has_more \<lparr>chunk = js ''Third'', has_more = False, cursor = None\<rparr>" by simp
  have e: "\<exists>rec. aIChunkFindUnique exampleDb1 ''q1'' = Some rec \<and> ch_expiresAt rec < 3601001"
    by (rule exI[of _ exampleSession]) code_simp
  from C3_continue_not_found[of 2000 exampleDb1 "''q1''" _ exampleDb2 3000]
       d example_continue_1 h
  have 1: "aIChunkFindUnique exampleDb2 ''q1'' = None \<and>
     (\<exists>msg db2. continueAIQuery 3000 exampleDb2 ''q1'' = (Inl (NotFoundError msg), db2))"
    by blast
  from C3_continue_not_found[of 3601001 exampleDb1 "''q1''"] e
  have 2: "\<exists>msg db'. continueAIQuery 3601001 exampleDb1 ''q1'' = (Inl (NotFoundError msg), db')"
    by blast
  show ?thesis using d example_continue_1 h 1 2 e by blast
qed

text \<open>
  A session as \<open>processAIQuery\<close> stores it has its cursor at 1. The first \<open>continue\<close> on
  such a session never serves the first stored fragment: it returns the second one, or
  the empty chunk when only one fragment was stored.
\<close>

lemma continue_on_fresh_session:
  assumes "aIChunkFindUnique db c = Some r" "ch_cursor r = 1" "\<not> ch_expiresAt r < now"
  shows "fst (continueAIQuery now db c) =
           Inr \<lparr>chunk = (if length (ch_chunks r) \<le> 1 then [] else ch_chunks r ! 1),
                has_more = (2 < length (ch_chunks r)),
                cursor = (if 2 < length (ch_chunks r) then Some c else None)\<rparr>"
  using assms by (auto simp: continueAIQuery_def Let_def)

text \<open>
  C1 does not hold of the code: \<open>processAIQuery\<close> stores \<open>chunks.slice(1)\<close>, the
  fragments that remain after the first, and yet starts the stored cursor at 1, so
  \<open>continueAIQuery\<close> begins at the second of the remaining fragments. For an answer of
  three fragments the first \<open>continue\<close> already returns the third with
  \<open>has_more = false\<close> and deletes the session; the second fragment is never served.
\<close>

theorem C1_second_fragment_skipped:
  "processAIQuery exampleConfig exampleProvider 1000 ''q1'' ''r1'' exampleDb ''d1'' (js ''hi'') =
     Some (Inr \<lparr>chunk = js ''First one.'', has_more = True, cursor = Some ''q1''\<rparr>, exampleDb1) \<and>
   aIChunk exampleDb1 =
     [\<lparr>ch_id = ''r1'', ch_queryId = ''q1'', ch_deviceId = ''d1'',
       ch_chunks = [js ''Second one.'', js ''Third''], ch_cursor = 1,
       ch_expiresAt = 3601000\<rparr>] \<and>
   continueAIQuery 2000 exampleDb1 ''q1'' =
     (Inr \<lparr>chunk = js ''Third'', has_more = False, cursor = None\<rparr>, exampleDb2) \<and>
   aIChunk exampleDb2 = [] \<and>
   continueAIQuery 3000 exampleDb2 ''q1'' =
     (Inl (NotFoundError ''Query not found or expired''), exampleDb2)"
proof -
  have "aIChunk exampleDb1 =
     [\<lparr>ch_id = ''r1'', ch_queryId = ''q1'', ch_deviceId = ''d1'',
       ch_chunks = [js ''Second one.'', js ''Third''], ch_cursor = 1,
       ch_expiresAt = 3601000\<rparr>]"
    by (simp add: exampleDb1_def exampleSession_def)
  moreover have "aIChunk exampleDb2 = []" by (simp add: exampleDb2_def)
  ultimately show ?thesis
    using example_process example_continue_1 example_continue_2 by blast
qed

section \<open>Claims about the policy screen\<close>

text \<open>
  C9. Whenever the policy screen reports the generated text unsafe, the query returns
  the fixed fragment \<open>Content blocked by policy\<close> with \<open>has_more = false\<close>; the database
  is left as it was (no continuation session, no activity entry), and the result does
  not depend on the sanitizer or the chunker (it is returned even where the chunking
  loop would not). The screen is a parameter here: the service's own
  \<open>checkContentPolicy\<close> never reports unsafe.
\<close>

theorem C9_policy_blocked_short_circuits:
  assumes "deviceFindUnique db deviceDbId = Some device"
    and "dev_aiConfig device = Some aiConfig"
    and "getApiKey config (cfg_provider aiConfig) (cfg_apiKey aiConfig) = Some key"
    and "callAIProvider prompt
           \<lparr>pc_provider = cfg_provider aiConfig, pc_model = cfg_model aiConfig,
            pc_apiKey = key, pc_maxChars = cfg_maxChars aiConfig,
            pc_temperature = cfg_temperature aiConfig\<rparr> = Some rawResponse"
    and "\<not> safe (screen rawResponse)"
  shows "processAIQueryWith screen config callAIProvider now queryId rowId db deviceDbId prompt =
           Some (Inr \<lparr>chunk = js ''Content blocked by policy'', has_more = False,
                      cursor = None\<rparr>, db)"
  using assms by (simp add: processAIQueryWith_def)

theorem C9_witness:
  "deviceFindUnique exampleDb ''d1'' = Some (hd (devices exampleDb)) \<and>
   dev_aiConfig (hd (devices exampleDb)) =
     Some \<lparr>cfg_provider = OPENAI, cfg_model = ''gpt'', cfg_apiKey = None,
           cfg_maxChars = 4000, cfg_temperature = 0\<rparr> \<and>
   getApiKey exampleConfig OPENAI None = Some ''sk-test'' \<and>
   exampleProvider (js ''hi'')
     \<lparr>pc_provider = OPENAI, pc_model = ''gpt'', pc_apiKey = ''sk-test'', pc_maxChars = 4000,
      pc_temperature = 0\<rparr> = Some (js ''First one. Second one. Third'') \<and>
   \<not> safe (exampleScreen (js ''First one. Second one. Third'')) \<and>
   processAIQueryWith exampleScreen exampleConfig exampleProvider 1000 ''q1'' ''r1'' exampleDb
       ''d1'' (js ''hi'') =
     Some (Inr \<lparr>chunk = js ''Content blocked by policy'', has_more = False, cursor = None\<rparr>,
           exampleDb)"
proof -
  let ?cfg = "\<lparr>cfg_provider = OPENAI, cfg_model = ''gpt'', cfg_apiKey = None,
           cfg_maxChars = 4000, cfg_temperature = 0\<rparr>"
  have 1: "deviceFindUnique exampleDb ''d1'' = Some (hd (devices exampleDb))"
    by (simp add: deviceFindUnique_def exampleDb_def)
  have 2: "dev_aiConfig (hd (devices exampleDb)) = Some ?cfg"
    by (simp add: exampleDb_def)
  have 3: "getApiKey exampleConfig (cfg_provider ?cfg) (cfg_apiKey ?cfg) = Some ''sk-test''"
    by (simp add: getApiKey_def exampleConfig_def orNull_def)
  have 4: "exampleProvider (js ''hi'')
     \<lparr>pc_provider = cfg_provider ?cfg, pc_model = cfg_model ?cfg, pc_apiKey = ''sk-test'',
      pc_maxChars = cfg_maxChars ?cfg, pc_temperature = cfg_temperature ?cfg\<rparr>
       = Some (js ''First one. Second one. Third'')"
    by (simp add: exampleProvider_def)
  have 5: "\<not> safe (exampleScreen (js ''First one. Second one. Third''))"
    by (simp add: exampleScreen_def)
  have 6: "processAIQueryWith exampleScreen exampleConfig exampleProvider 1000 ''q1'' ''r1''
       exampleDb ''d1'' (js ''hi'') =
     Some (Inr \<lparr>chunk = js ''Content blocked by policy'', has_more = False, cursor = None\<rparr>,
           exampleDb)"
    by (rule C9_policy_blocked_short_circuits
          [where callAIProvider = exampleProvider and prompt = "js ''hi''"
             and screen = exampleScreen and config = exampleConfig, OF 1 2 3 4 5])
  from 3 have k3: "getApiKey exampleConfig OPENAI None = Some ''sk-test''" by simp
  from 4 have k4: "exampleProvider (js ''hi'')
     \<lparr>pc_provider = OPENAI, pc_model = ''gpt'', pc_apiKey = ''sk-test'', pc_maxChars = 4000,
      pc_temperature = 0\<rparr> = Some (js ''First one. Second one. Third'')" by simp
  show ?thesis using 1 2 k3 k4 5 6 by blast
qed








section \<open>Claims about the sanitizer\<close>

lemma replaceAll_absent: "\<not> occurs r s \<Longrightarrow> replaceAll r f s = s"
  by (simp add: occurs_def replaceAll_def)

lemma splitOn_not_Nil: "splitOn d s \<noteq> []"
  by (induction s) (auto split: list.splits)

lemma joinWith_Cons: "ls \<noteq> [] \<Longrightarrow> joinWith d (l # ls) = l @ d @ joinWith d ls"
  by (cases ls) auto

lemma joinWith_splitOn: "joinWith [d] (splitOn d s) = s"
proof (induction s)
  case Nil
  show ?case by simp
next
  case (Cons x xs)
  obtain l ls where sp: "splitOn d xs = l # ls"
    using splitOn_not_Nil[of d xs] by (cases "splitOn d xs") auto
  show ?case
  proof (cases "x = d")
    case True
    then show ?thesis using Cons.IH by (simp add: joinWith_Cons[OF splitOn_not_Nil])
  next
    case False
    have "joinWith [d] ((x # l) # ls) = x # joinWith [d] (l # ls)"
      by (cases ls) auto
    then show ?thesis using False sp Cons.IH by simp
  qed
qed

lemma rxScan_Nil_iff:
  "rxScan r s ps 0 = [] \<longleftrightarrow> (\<forall>p\<in>set ps. rxMatch r s p None = None)"
  by (induction ps) (auto split: option.splits)

lemma firstSome_map_None: "\<forall>p\<in>set ps. f p = None \<Longrightarrow> firstSome (map f ps) = None"
  by (induction ps) auto

lemma rxTestFrom_absent: "\<not> occurs r s \<Longrightarrow> rxTestFrom r s 0 = (False, 0)"
proof -
  assume "\<not> occurs r s"
  then have "rxScan r s [0 ..< Suc (length s)] 0 = []"
    unfolding occurs_def matchAll_def by blast
  then have "\<forall>p\<in>set [0 ..< Suc (length s)]. rxMatch r s p None = None"
    by (rule iffD1[OF rxScan_Nil_iff])
  then have "firstSome (map (\<lambda>p. rxMatch r s p None) [0 ..< Suc (length s)]) = None"
    by (rule firstSome_map_None)
  then show ?thesis by (simp add: rxTestFrom_def)
qed

lemma tableLines_plain:
  "\<forall>line\<in>set lines. \<not> rxTest separatorPattern (trim line) \<and> \<not> occurs tablePattern line \<Longrightarrow>
   tableLines lines 0 = lines"
  by (induction lines) (simp_all add: rxTestFrom_absent)

lemma convertTables_plain: "\<not> hasTableRow s \<Longrightarrow> convertTables s = s"
  unfolding hasTableRow_def convertTables_def Let_def list_ex_iff
  by (subst tableLines_plain) (auto simp: joinWith_splitOn)

lemma normalizeWhitespace_plain: "normalWhitespace s \<Longrightarrow> normalizeWhitespace s = s"
proof -
  assume n: "normalWhitespace s"
  then have "map trim (splitOn 10 s) = splitOn 10 s"
    unfolding normalWhitespace_def list_all_iff by (simp add: map_idI)
  with n show ?thesis
    unfolding normalWhitespace_def normalizeWhitespace_def Let_def
    by (simp add: replaceAll_absent joinWith_splitOn)
qed

lemma convertMathSymbols_fold:
  "\<forall>x\<in>set rs. \<not> occurs (fst x) s \<Longrightarrow>
   foldl (\<lambda>result (pattern, replacement). replaceAll pattern replacement result) s rs = s"
  by (induction rs) (auto simp: replaceAll_absent)

lemma stripCodeBlocks_plain:
  "list_all (\<lambda>r. \<not> occurs r s) markupPatterns \<Longrightarrow> stripCodeBlocks s = s"
  by (simp add: markupPatterns_def stripCodeBlocks_def replaceAll_absent)

lemma stripMarkdown_plain:
  "list_all (\<lambda>r. \<not> occurs r s) markupPatterns \<Longrightarrow> stripMarkdown s = s"
  by (simp add: markupPatterns_def stripMarkdown_def replaceAll_absent)

lemma sanitizeAIResponse_plain:
  assumes "plainText s"
  shows "sanitizeAIResponse s = s"
proof -
  from assms have m: "list_all (\<lambda>r. \<not> occurs r s) markupPatterns"
    and g: "\<forall>x\<in>set replacements. \<not> occurs (fst x) s"
    and t: "\<not> hasTableRow s" and w: "normalWhitespace s"
    by (auto simp: plainText_def list_all_iff)
  show ?thesis
    unfolding sanitizeAIResponse_def Let_def
    by (simp add: stripCodeBlocks_plain[OF m] stripMarkdown_plain[OF m] convertMathSymbols_def
          convertMathSymbols_fold[OF g] convertTables_plain[OF t] normalizeWhitespace_plain[OF w])
qed

text \<open>
  C7. The sanitizer leaves plain text alone: for every text that contains none of the
  recognized markup constructs, none of the mapped math glyphs, no table row and no
  abnormal whitespace, \<open>sanitizeAIResponse\<close> returns the text itself, and so sanitizing
  twice gives what sanitizing once gives.
\<close>

theorem C7_plain_text_fixed:
  assumes "plainText s"
  shows "sanitizeAIResponse s = s \<and>
         sanitizeAIResponse (sanitizeAIResponse s) = sanitizeAIResponse s"
  using sanitizeAIResponse_plain[OF assms] by simp

lemma example_plain: "plainText (js ''This is normal text.'')"
  by code_simp

theorem C7_witness:
  "plainText (js ''This is normal text.'') \<and>
   sanitizeAIResponse (js ''This is normal text.'')
     = js ''This is normal text.'' \<and>
   sanitizeAIResponse (sanitizeAIResponse (js ''This is normal text.''))
     = sanitizeAIResponse (js ''This is normal text.'')"
  using C7_plain_text_fixed[OF example_plain] example_plain by blast

subsection \<open>Ordinary sentences are plain\<close>

text \<open>
  The plain texts include every one-line sentence of ASCII letters, single spaces and
  the punctuation \<open>, . ; : ? ' " ( )\<close> that neither starts nor ends with a space; the
  sanitizer returns each of them unchanged.
\<close>

lemma absent_everywhere: "(\<And>p. rxMatch r s p None = None) \<Longrightarrow> \<not> occurs r s"
  unfolding occurs_def matchAll_def by (simp add: rxScan_Nil_iff del: upt_Suc)

lemma rxMatch_One_absent:
  "\<forall>c\<in>set s. \<not> atomMatches a c \<Longrightarrow> rxMatch (One a # r) s i cap = None"
  by auto

lemma runLen_absent: "\<forall>c\<in>set s. \<not> atomMatches a c \<Longrightarrow> runLen a hi s i = 0"
proof -
  assume a: "\<forall>c\<in>set s. \<not> atomMatches a c"
  have "takeWhile (atomMatches a) (drop i s) = []"
    using a by (metis in_set_dropD takeWhile_eq_Nil_iff list.set_sel(1))
  then show ?thesis by (simp add: runLen_def split: option.splits)
qed

lemma rxMatch_Rep_absent:
  "\<forall>c\<in>set s. \<not> atomMatches a c \<Longrightarrow> 0 < lo \<Longrightarrow> rxMatch (Rep a lo hi # r) s i cap = None"
  by (simp add: runLen_absent)

lemma rxMatch_Rep_then:
  "(\<And>p. rxMatch r s p cap = None) \<Longrightarrow> rxMatch (Rep a lo hi # r) s i cap = None"
  by (simp add: firstSome_map_None)

lemma ordinary_bounds:
  assumes "list_all ordinaryChar s" "c \<in> set s"
  shows "c \<le> 122 \<and> c \<noteq> 10 \<and> c \<noteq> 33 \<and> c \<noteq> 35 \<and> c \<noteq> 42 \<and> c \<noteq> 43 \<and> c \<noteq> 45 \<and>
         c \<noteq> 62 \<and> c \<noteq> 91 \<and> c \<noteq> 95 \<and> c \<noteq> 96 \<and> c \<noteq> 124 \<and> c \<noteq> 126 \<and>
         \<not> isDigit c \<and>
         (isWhiteSpace c \<longleftrightarrow> c = 32)"
  using assms by (auto simp: list_all_iff ordinaryChar_def isDigit_def isWhiteSpace_def)

lemma rxMatch_LineStart_then:
  "rxMatch r s i cap = None \<Longrightarrow> rxMatch (LineStart # r) s i cap = None"
  by simp

lemma rxMatch_InputStart_then:
  "rxMatch r s i cap = None \<Longrightarrow> rxMatch (InputStart # r) s i cap = None"
  by auto

lemma ordinary_markup:
  assumes o: "list_all ordinaryChar s"
  shows "list_all (\<lambda>r. \<not> occurs r s) markupPatterns"
proof -
  note b = ordinary_bounds[OF o]
  have lit: "\<not> occurs (One (Lit c) # r) s" if "c \<in> {33, 42, 62, 91, 95, 96, 126}" for c r
    by (rule absent_everywhere, rule rxMatch_One_absent) (use that b in fastforce)
  have header: "\<not> occurs headerPattern s"
    unfolding headerPattern_def
    by (rule absent_everywhere, rule rxMatch_LineStart_then, rule rxMatch_Rep_absent)
       (use b in auto)
  have rule: "\<not> occurs rulePattern s"
    unfolding rulePattern_def
    by (rule absent_everywhere, rule rxMatch_LineStart_then, rule rxMatch_Rep_absent)
       (use b in auto)
  have bullet: "\<not> occurs bulletPattern s"
    unfolding bulletPattern_def
    by (rule absent_everywhere, rule rxMatch_LineStart_then, rule rxMatch_Rep_then,
        rule rxMatch_One_absent) (use b in auto)
  have ordered: "\<not> occurs orderedPattern s"
    unfolding orderedPattern_def
    by (rule absent_everywhere, rule rxMatch_LineStart_then, rule rxMatch_Rep_then,
        rule rxMatch_Rep_absent) (use b in auto)
  have quote: "\<not> occurs blockquotePattern s"
    unfolding blockquotePattern_def
    by (rule absent_everywhere, rule rxMatch_LineStart_then, rule rxMatch_One_absent)
       (use b in auto)
  show ?thesis
    unfolding markupPatterns_def list.pred_inject
    using header rule bullet ordered quote
    by (simp add: lit fencedCodePattern_def inlineCodePattern_def boldStarPattern_def
          boldUnderPattern_def italicStarPattern_def italicUnderPattern_def strikePattern_def
          linkPattern_def imagePattern_def del: rxMatch.simps)
qed

lemma ordinary_glyphs:
  assumes o: "list_all ordinaryChar s"
  shows "list_all (\<lambda>r. \<not> occurs r s) (map fst replacements)"
proof -
  note b = ordinary_bounds[OF o]
  have lit: "122 < c \<Longrightarrow> \<not> occurs (One (Lit c) # r) s" for c r
    by (rule absent_everywhere, rule rxMatch_One_absent) (use b in fastforce)
  show ?thesis
    unfolding replacements_def glyph_def list.map fst_conv list.pred_inject
    by (intro conjI lit) simp_all
qed


lemma splitOn_single: "d \<notin> set s \<Longrightarrow> splitOn d s = [s]"
  by (induction s) auto

lemma trim_unchanged:
  assumes "s = [] \<or> (\<not> isWhiteSpace (hd s) \<and> \<not> isWhiteSpace (last s))"
  shows "trim s = s"
proof (cases "s = []")
  case True
  then show ?thesis by (simp add: trim_def)
next
  case False
  with assms have h: "\<not> isWhiteSpace (hd s)" and l: "\<not> isWhiteSpace (last s)" by auto
  from False h have 1: "dropWhile isWhiteSpace s = s" by (cases s) auto
  from False obtain xs x where sx: "s = xs @ [x]" by (cases s rule: rev_cases) auto
  with l have 2: "dropWhile isWhiteSpace (rev s) = rev s" by simp
  show ?thesis by (simp add: trim_def 1 2)
qed

lemma ordinary_trim:
  assumes "ordinarySentence s"
  shows "trim s = s"
proof (rule trim_unchanged, cases "s = []")
  case True
  then show "s = [] \<or> (\<not> isWhiteSpace (hd s) \<and> \<not> isWhiteSpace (last s))" by simp
next
  case False
  from assms have o: "list_all ordinaryChar s" and e: "hd s \<noteq> 32" "last s \<noteq> 32"
    using False by (auto simp: ordinarySentence_def)
  from False have "hd s \<in> set s" "last s \<in> set s" by auto
  with ordinary_bounds[OF o] e
  show "s = [] \<or> (\<not> isWhiteSpace (hd s) \<and> \<not> isWhiteSpace (last s))" by blast
qed

lemma ordinary_no_table:
  assumes s: "ordinarySentence s"
  shows "\<not> hasTableRow s"
proof -
  from s have o: "list_all ordinaryChar s" by (simp add: ordinarySentence_def)
  note b = ordinary_bounds[OF o]
  have nl: "10 \<notin> set s" using b by blast
  have "\<not> occurs separatorPattern s"
    unfolding separatorPattern_def
    by (rule absent_everywhere, rule rxMatch_InputStart_then, rule rxMatch_One_absent)
       (use b in auto)
  then have sep: "\<not> rxTest separatorPattern s"
    by (simp add: rxTest_def rxTestFrom_absent)
  have tab: "\<not> occurs tablePattern s"
    unfolding tablePattern_def
    by (rule absent_everywhere, rule rxMatch_One_absent) (use b in auto)
  show ?thesis
    by (simp add: hasTableRow_def splitOn_single[OF nl] ordinary_trim[OF s] sep tab)
qed

lemma runLen_stop:
  "i \<ge> length s \<or> \<not> atomMatches a (s ! i) \<Longrightarrow> runLen a hi s i = 0"
proof -
  assume h: "i \<ge> length s \<or> \<not> atomMatches a (s ! i)"
  have "takeWhile (atomMatches a) (drop i s) = []"
  proof (cases "i \<ge> length s")
    case True
    then show ?thesis by simp
  next
    case False
    then have "drop i s = s ! i # drop (Suc i) s" by (simp add: Cons_nth_drop_Suc)
    with h False show ?thesis by simp
  qed
  then show ?thesis by (simp add: runLen_def split: option.splits)
qed

lemma ordinary_whitespace:
  assumes s: "ordinarySentence s"
  shows "normalWhitespace s"
proof -
  from s have o: "list_all ordinaryChar s"
    and adj: "\<And>i. i < length s - 1 \<Longrightarrow> \<not> (s ! i = 32 \<and> s ! Suc i = 32)"
    by (auto simp: ordinarySentence_def list_all_iff)
  note b = ordinary_bounds[OF o]
  have nl: "10 \<notin> set s" using b by blast
  have spaces: "\<not> occurs spacesPattern s"
    unfolding spacesPattern_def
  proof (rule absent_everywhere)
    fix p
    show "rxMatch [One (Lit 32), Rep (Lit 32) 1 None] s p None = None"
    proof (cases "p < length s \<and> s ! p = 32")
      case False
      then show ?thesis by auto
    next
      case True
      have "Suc p \<ge> length s \<or> \<not> atomMatches (Lit 32) (s ! Suc p)"
        using True adj[of p] by (cases "Suc p < length s") auto
      then have "runLen (Lit 32) None s (Suc p) = 0" by (rule runLen_stop)
      then show ?thesis by simp
    qed
  qed
  have newlines: "\<not> occurs newlinesPattern s"
    unfolding newlinesPattern_def
    by (rule absent_everywhere, rule rxMatch_Rep_absent) (use b in auto)
  show ?thesis
    by (simp add: normalWhitespace_def spaces newlines splitOn_single[OF nl] ordinary_trim[OF s])
qed

lemma ordinarySentence_plain: "ordinarySentence s \<Longrightarrow> plainText s"
  using ordinary_markup[of s] ordinary_glyphs[of s] ordinary_no_table[of s]
        ordinary_whitespace[of s]
  by (simp add: plainText_def ordinarySentence_def)


lemma sanitizeAIResponse_ordinary: "ordinarySentence s \<Longrightarrow> sanitizeAIResponse s = s"
  by (rule sanitizeAIResponse_plain) (rule ordinarySentence_plain)

text \<open>
  C6 does not hold of the code: \<open>normalizeWhitespace\<close> collapses runs of three or more
  newlines before it trims the lines, so lines that hold only whitespace become empty
  after the collapse and leave a longer run behind. The input is \<open>a\<close>, then three lines
  of one space each, then \<open>b\<close>; the output has four consecutive newlines.
\<close>

theorem C6_newline_runs_survive:
  "sanitizeAIResponse (js ''a'' @ [10, 32, 10, 32, 10, 32, 10] @ js ''b'')
     = js ''a'' @ [10, 10, 10, 10] @ js ''b''"
  by code_simp

end
